theory Spec2Isabelle
  imports Complex_Main "HOL-Library.AList"
begin

unbundle bit_operations_syntax

section \<open>The switch controller of mpf/core/switch\_controller.py\<close>

text \<open>
  A shallow embedding of the class \<open>SwitchController\<close>. Conventions:
  \<^item> clock readings and dictionary keys of the timed queue are Python floats; they are
    idealised as rationals, so that arithmetic is exact;
  \<^item> switch states and millisecond counts are Python integers (\<open>int\<close>);
  \<^item> a raised exception (\<open>KeyError\<close>, \<open>AssertionError\<close>, or one raised by a
    callback) is the value \<open>None\<close>; a normal return is \<open>Some\<close> of the new state;
  \<^item> the mutable objects of the machine (the controller's dictionaries, the switch
    devices, the clock with its timers, the futures) are the fields of one record that
    every method takes and returns;
  \<^item> logging calls have no effect on that state and are left out.
\<close>

subsection \<open>The named tuples\<close>

datatype 'cb registered_switch =
  RegisteredSwitch (rs_ms: int) (rs_callback: 'cb)

datatype switch_state =
  SwitchState (ss_state: int) (ss_time: rat)

datatype 'cb timed_switch_handler =
  TimedSwitchHandler (tsh_callback: 'cb) (tsh_switch_name: string) (tsh_state: int) (tsh_ms: int)

datatype 'cb switch_handler =
  SwitchHandler (sh_switch_name: string) (sh_callback: 'cb) (sh_state: int) (sh_ms: int)

datatype monitored_switch_change =
  MonitoredSwitchChange (msc_name: string) (msc_label: string) (msc_platform: nat)
    (msc_num: nat) (msc_state: int)

subsection \<open>Callbacks\<close>

text \<open>
  A callback is either a callable of the framework, known to the controller only by its
  identity \<open>'u\<close>, or the object
  \<open>partial(self._wait_handler, ms=ms, _future=future, switch_name=switch_name)\<close> that
  \<open>wait_for_any_switch\<close> builds. A partial object is equal to itself only; its identity
  is the pair of the future and of the position of the switch in the list of names.
\<close>

datatype 'u callback =
  User 'u
| Wait_handler (wh_future: nat) (wh_index: nat) (wh_ms: int) (wh_switch_name: string)

subsection \<open>The switch device\<close>

text \<open>The fields of \<open>mpf.devices.switch.Switch\<close> that the controller reads and writes.\<close>

record switch =
  sw_name :: string
  sw_label :: string
  sw_platform :: nat
  sw_number :: nat
  sw_invert :: bool
  sw_state :: int
  sw_hw_state :: int
  sw_recycle_secs :: rat
  sw_recycle_clear_time :: rat
  sw_recycle_jitter_count :: int

subsection \<open>The clock and the futures\<close>

text \<open>The two callables that the controller hands to \<open>clock.schedule_once\<close>.\<close>

datatype timer_action =
  Process_active_timed_switches
| Recycle_passed (rp_obj: string) (rp_state: int) (rp_logical: bool) (rp_hw_state: int)

record timer =
  tm_handle :: nat
  tm_deadline :: rat
  tm_action :: timer_action

text \<open>
  The result of a future is a dictionary with the keys \<open>switch_name\<close> and \<open>ms\<close>, and
  \<open>state\<close> when the future is resolved at once. The done-callbacks of a future are the
  objects \<open>partial(self._future_done, handlers)\<close>, each given by its list of handlers.
\<close>

record wait_result =
  wr_switch_name :: string
  wr_state :: "int option"
  wr_ms :: int

record 'u future =
  fut_result :: "wait_result option"
  fut_cancelled :: bool
  fut_done_callbacks :: "'u callback switch_handler list list"

subsection \<open>The state\<close>

record ('u, 'm) machine =
  registered_switches :: "string \<rightharpoonup> 'u callback registered_switch list"
  timed_switch_handler_delay :: "nat option"
  active_timed_switches :: "(rat \<times> 'u callback timed_switch_handler list) list"
  switches :: "string \<rightharpoonup> switch_state"
  monitors :: "'m list"
  machine_switches :: "string \<rightharpoonup> switch"
  clock_time :: rat
  clock_timers :: "timer list"
  clock_next_handle :: nat
  futures :: "'u future list"

text \<open>
  The code the controller calls but does not contain: what a framework callback does,
  what a monitor does, and \<open>machine.events.process_event_queue\<close>.
\<close>

record ('u, 'm) env =
  run_callback :: "'u \<Rightarrow> ('u, 'm) machine \<Rightarrow> ('u, 'm) machine option"
  run_monitor :: "'m \<Rightarrow> monitored_switch_change \<Rightarrow> ('u, 'm) machine \<Rightarrow> ('u, 'm) machine option"
  process_event_queue :: "('u, 'm) machine \<Rightarrow> ('u, 'm) machine option"

subsection \<open>Python built-ins\<close>

text \<open>
  \<open>round(x, 0)\<close> of Python 3 on a float rounds to the nearest integer and a tie to the
  even one; the result is a float with an integral value.
\<close>

definition py_round :: "rat \<Rightarrow> int" where
  "py_round x =
     (let f = \<lfloor>x\<rfloor>; d = x - of_int f
      in if d < 1 / 2 then f
         else if 1 / 2 < d then f + 1
         else if even f then f else f + 1)"

text \<open>Rounding that takes a tie away from zero, the one the specification names.\<close>

definition round_half_away :: "rat \<Rightarrow> int" where
  "round_half_away x = (if 0 \<le> x then \<lfloor>x + 1 / 2\<rfloor> else - \<lfloor>- x + 1 / 2\<rfloor>)"

text \<open>\<open>str\<close> of an integer.\<close>

definition digit_char :: "nat \<Rightarrow> char" where
  "digit_char d = ''0123456789'' ! d"

function str_nat :: "nat \<Rightarrow> string" where
  "str_nat n = (if n < 10 then [digit_char n] else str_nat (n div 10) @ [digit_char (n mod 10)])"
  by pat_completeness auto
termination
  by (relation "measure id") auto

declare str_nat.simps [simp del]

definition str_int :: "int \<Rightarrow> string" where
  "str_int i = (if i < 0 then CHR ''-'' # str_nat (nat (- i)) else str_nat (nat i))"

text \<open>
  Modelled from the spec: the class \<open>CaseInsensitiveDict\<close> is not part of the sources;
  the specification says that names are compared case-insensitively and that the
  dictionary normalises its keys on lookup and on insertion. The normal form is the
  lower-case string (ASCII letters).
\<close>

definition lower_char :: "char \<Rightarrow> char" where
  "lower_char c =
     (case map_of (zip ''ABCDEFGHIJKLMNOPQRSTUVWXYZ'' ''abcdefghijklmnopqrstuvwxyz'') c of
        None \<Rightarrow> c
      | Some l \<Rightarrow> l)"

definition lower :: "string \<Rightarrow> string" where
  "lower s = map lower_char s"

definition ci_get :: "(string \<rightharpoonup> 'v) \<Rightarrow> string \<Rightarrow> 'v option" where
  "ci_get d k = d (lower k)"

definition ci_set :: "(string \<rightharpoonup> 'v) \<Rightarrow> string \<Rightarrow> 'v \<Rightarrow> (string \<rightharpoonup> 'v)" where
  "ci_set d k v = d(lower k \<mapsto> v)"

subsection \<open>The state store\<close>

definition ms_since_change :: "string \<Rightarrow> ('u, 'm) machine \<Rightarrow> int option" where
  "ms_since_change switch_name s =
     (case ci_get (switches s) switch_name of
        None \<Rightarrow> None
      | Some st \<Rightarrow> Some (py_round ((clock_time s - ss_time st) * 1000)))"

definition set_state :: "string \<Rightarrow> int \<Rightarrow> bool \<Rightarrow> ('u, 'm) machine \<Rightarrow> ('u, 'm) machine" where
  "set_state switch_name state reset_time s =
     (let timestamp = (if reset_time then - 100000 else clock_time s)
      in s\<lparr>switches := ci_set (switches s) switch_name (SwitchState state timestamp)\<rparr>)"

definition is_state :: "string \<Rightarrow> int \<Rightarrow> int \<Rightarrow> ('u, 'm) machine \<Rightarrow> bool option" where
  "is_state switch_name state ms s =
     (case ci_get (switches s) switch_name of
        None \<Rightarrow> None
      | Some st \<Rightarrow>
          if ss_state st = state
          then (case ms_since_change switch_name s of
                  None \<Rightarrow> None
                | Some since \<Rightarrow> Some (ms \<le> since))
          else Some False)"

definition is_active :: "string \<Rightarrow> int \<Rightarrow> ('u, 'm) machine \<Rightarrow> bool option" where
  "is_active switch_name ms s = is_state switch_name 1 ms s"

definition is_inactive :: "string \<Rightarrow> int \<Rightarrow> ('u, 'm) machine \<Rightarrow> bool option" where
  "is_inactive switch_name ms s = is_state switch_name 0 ms s"

subsection \<open>The clock\<close>

text \<open>
  Modelled from the spec: the clock is not part of the sources. \<open>schedule_once\<close> takes a
  callable and a delay in seconds and returns a handle; the timer is due at the present
  reading plus the delay. \<open>unschedule\<close> cancels the timer of a handle and does nothing
  when that timer has fired or was cancelled before.
\<close>

definition schedule_once ::
  "timer_action \<Rightarrow> rat \<Rightarrow> ('u, 'm) machine \<Rightarrow> nat \<times> ('u, 'm) machine" where
  "schedule_once action timeout s =
     (let h = clock_next_handle s
      in (h, s\<lparr>clock_timers :=
                  clock_timers s @
                    [\<lparr>tm_handle = h, tm_deadline = clock_time s + timeout, tm_action = action\<rparr>],
                clock_next_handle := Suc h\<rparr>))"

definition unschedule :: "nat \<Rightarrow> ('u, 'm) machine \<Rightarrow> ('u, 'm) machine" where
  "unschedule h s = s\<lparr>clock_timers := filter (\<lambda>t. tm_handle t \<noteq> h) (clock_timers s)\<rparr>"

subsection \<open>The timed queue\<close>

text \<open>
  \<open>active_timed_switches\<close> is a \<open>defaultdict(list)\<close>: an association list with distinct
  keys, in the order of insertion. \<open>d[k].append(v)\<close> makes the bucket when it is missing.
\<close>

definition bucket_append :: "'k \<Rightarrow> 'v \<Rightarrow> ('k \<times> 'v list) list \<Rightarrow> ('k \<times> 'v list) list" where
  "bucket_append k v d =
     (case map_of d k of
        None \<Rightarrow> d @ [(k, [v])]
      | Some l \<Rightarrow> AList.update k (l @ [v]) d)"

text \<open>\<open>del xs[i]\<close>, for an index in range.\<close>

definition del_index :: "nat \<Rightarrow> 'a list \<Rightarrow> 'a list" where
  "del_index i xs = take i xs @ drop (Suc i) xs"

definition get_next_timed_switch_event :: "('u, 'm) machine \<Rightarrow> rat option" where
  "get_next_timed_switch_event s =
     (if active_timed_switches s = [] then None
      else Some (min_list (map fst (active_timed_switches s))))"

definition add_timed_switch_handler ::
  "rat \<Rightarrow> 'u callback timed_switch_handler \<Rightarrow> ('u, 'm) machine \<Rightarrow> ('u, 'm) machine option" where
  "add_timed_switch_handler time timed_switch_handler s =
     (let s1 = s\<lparr>active_timed_switches :=
                   bucket_append time timed_switch_handler (active_timed_switches s)\<rparr>;
          s2 = (case timed_switch_handler_delay s1 of
                  None \<Rightarrow> s1
                | Some h \<Rightarrow> unschedule h s1)
      in case get_next_timed_switch_event s2 of
           None \<Rightarrow> None
         | Some next_event \<Rightarrow>
             (let (h, s3) = schedule_once Process_active_timed_switches
                              (next_event - clock_time s2) s2
              in Some (s3\<lparr>timed_switch_handler_delay := Some h\<rparr>)))"

text \<open>
  The inner loop of \<open>_cancel_timed_handlers\<close>: \<open>enumerate(v)\<close> walks the live list \<open>v\<close>
  by index, and \<open>del self.active_timed_switches[k][k2]\<close> deletes from that same list.
  The guard \<open>self.active_timed_switches[k] and self.active_timed_switches[k][k2]\<close> is
  true whenever it is reached: the list holds index \<open>k2\<close>, and a named tuple of four
  fields is truthy.
\<close>

function cancel_items ::
  "string \<Rightarrow> int \<Rightarrow> nat \<Rightarrow> 'cb timed_switch_handler list \<Rightarrow> 'cb timed_switch_handler list" where
  "cancel_items name state k2 v =
     (if k2 < length v
      then (let item = v ! k2
            in if tsh_switch_name item = name \<and> tsh_state item = state XOR 1
               then cancel_items name state (Suc k2) (del_index k2 v)
               else cancel_items name state (Suc k2) v)
      else v)"
  by pat_completeness auto
termination
  by (relation "measure (\<lambda>(name, state, k2, v). Suc (length v) - k2)")
    (auto simp: del_index_def)

declare cancel_items.simps [simp del]

definition cancel_timed_handlers :: "string \<Rightarrow> int \<Rightarrow> ('u, 'm) machine \<Rightarrow> ('u, 'm) machine" where
  "cancel_timed_handlers name state s =
     s\<lparr>active_timed_switches :=
         map (\<lambda>(k, v). (k, cancel_items name state 0 v)) (active_timed_switches s)\<rparr>"

subsection \<open>Futures\<close>

text \<open>
  Modelled from the spec: \<open>asyncio.Future\<close> is not part of the sources. A future is done
  once it has a result or is cancelled; its done-callbacks run when it completes, by
  resolution or by cancellation.
\<close>

definition fut_done :: "'u future \<Rightarrow> bool" where
  "fut_done f = (fut_result f \<noteq> None \<or> fut_cancelled f)"

definition wait_handler ::
  "nat \<Rightarrow> int \<Rightarrow> string \<Rightarrow> ('u, 'm) machine \<Rightarrow> ('u, 'm) machine option" where
  "wait_handler fut ms switch_name s =
     (if fut < length (futures s)
      then (let f = futures s ! fut
            in if \<not> fut_done f
               then Some (s\<lparr>futures := (futures s)
                             [fut := f\<lparr>fut_result :=
                                        Some \<lparr>wr_switch_name = switch_name, wr_state = None,
                                              wr_ms = ms\<rparr>\<rparr>]\<rparr>)
               else Some s)
      else None)"

text \<open>Calling a callback.\<close>

definition invoke ::
  "('u, 'm) env \<Rightarrow> 'u callback \<Rightarrow> ('u, 'm) machine \<Rightarrow> ('u, 'm) machine option" where
  "invoke env cb s =
     (case cb of
        User u \<Rightarrow> run_callback env u s
      | Wait_handler fut i ms switch_name \<Rightarrow> wait_handler fut ms switch_name s)"

subsection \<open>Dispatching a transition\<close>

definition switch_key :: "string \<Rightarrow> int \<Rightarrow> string" where
  "switch_key name state = name @ ''-'' @ str_int state"

fun call_handlers_loop ::
  "('u, 'm) env \<Rightarrow> string \<Rightarrow> int \<Rightarrow> 'u callback registered_switch list \<Rightarrow>
     ('u, 'm) machine \<Rightarrow> ('u, 'm) machine option" where
  "call_handlers_loop env name state [] s = Some s"
| "call_handlers_loop env name state (entry # rest) s =
     (case ci_get (registered_switches s) (switch_key name state) of
        None \<Rightarrow> None
      | Some live \<Rightarrow>
          if entry \<notin> set live then call_handlers_loop env name state rest s
          else if rs_ms entry \<noteq> 0
          then (case add_timed_switch_handler
                       (clock_time s + of_int (rs_ms entry) / 1000)
                       (TimedSwitchHandler (rs_callback entry) name state (rs_ms entry)) s of
                  None \<Rightarrow> None
                | Some s' \<Rightarrow> call_handlers_loop env name state rest s')
          else (case invoke env (rs_callback entry) s of
                  None \<Rightarrow> None
                | Some s' \<Rightarrow> call_handlers_loop env name state rest s'))"

definition call_handlers ::
  "('u, 'm) env \<Rightarrow> string \<Rightarrow> int \<Rightarrow> ('u, 'm) machine \<Rightarrow> ('u, 'm) machine option" where
  "call_handlers env name state s =
     (case ci_get (registered_switches s) (switch_key name state) of
        None \<Rightarrow> Some s
      | Some entries \<Rightarrow> call_handlers_loop env name state entries s)"

text \<open>
  A switch object is referred to by its key in \<open>machine.switches\<close>; writing a field of the
  object updates the entry of that key.
\<close>

definition obj_update :: "string \<Rightarrow> (switch \<Rightarrow> switch) \<Rightarrow> ('u, 'm) machine \<Rightarrow> ('u, 'm) machine" where
  "obj_update obj f s =
     (case machine_switches s obj of
        None \<Rightarrow> s
      | Some sw \<Rightarrow> s\<lparr>machine_switches := (machine_switches s)(obj \<mapsto> f sw)\<rparr>)"

definition check_recycle_time ::
  "string \<Rightarrow> int \<Rightarrow> ('u, 'm) machine \<Rightarrow> (bool \<times> ('u, 'm) machine) option" where
  "check_recycle_time obj state s =
     (case machine_switches s obj of
        None \<Rightarrow> None
      | Some sw \<Rightarrow>
          if sw_recycle_clear_time sw \<le> clock_time s then Some (True, s)
          else if state \<noteq> 0
          then Some (False,
                 obj_update obj
                   (\<lambda>sw. sw\<lparr>sw_recycle_jitter_count := sw_recycle_jitter_count sw + 1\<rparr>) s)
          else Some (False, s))"

text \<open>
  Lines 274 to 289 of \<open>process_switch_obj\<close>: the argument is coerced to 0 or 1, and the
  logical and the physical state of a normally-closed switch are flipped. The result is
  the pair of \<open>state\<close> and \<open>hw_state\<close>.
\<close>

definition flip_states :: "bool \<Rightarrow> bool \<Rightarrow> int \<Rightarrow> int \<times> int" where
  "flip_states invert logical state0 =
     (let state = (if state0 \<noteq> 0 then 1 else 0);
          hw_state = state
      in if invert
         then (if logical then (state, hw_state XOR 1) else (state XOR 1, hw_state))
         else (state, hw_state))"

text \<open>
  The loop \<open>for monitor in self.monitors\<close> walks the live list by index; a monitor may
  change the list, so the loop need not end.
\<close>

partial_function (option) monitor_loop ::
  "('u, 'm) env \<Rightarrow> string \<Rightarrow> int \<Rightarrow> nat \<Rightarrow> ('u, 'm) machine \<Rightarrow> ('u, 'm) machine option" where
  "monitor_loop env obj state i s =
     (if i < length (monitors s)
      then (case machine_switches s obj of
              None \<Rightarrow> None
            | Some sw \<Rightarrow>
                Option.bind
                  (run_monitor env (monitors s ! i)
                     (MonitoredSwitchChange (sw_name sw) (sw_label sw) (sw_platform sw)
                        (sw_number sw) state) s)
                  (monitor_loop env obj state (Suc i)))
      else Some s)"

declare monitor_loop.simps [code]

definition process_switch_obj ::
  "('u, 'm) env \<Rightarrow> string \<Rightarrow> int \<Rightarrow> bool \<Rightarrow> ('u, 'm) machine \<Rightarrow> ('u, 'm) machine option" where
  "process_switch_obj env obj state0 logical s =
     (case machine_switches s obj of
        None \<Rightarrow> None
      | Some sw \<Rightarrow>
          (let (state, hw_state) = flip_states (sw_invert sw) logical state0;
               s1 = obj_update obj (\<lambda>sw. sw\<lparr>sw_hw_state := hw_state\<rparr>) s
           in case (if state \<noteq> 0 then check_recycle_time obj state s1 else Some (True, s1)) of
                None \<Rightarrow> None
              | Some (ok, s2) \<Rightarrow>
                  if \<not> ok
                  then Some (snd (schedule_once (Recycle_passed obj state logical hw_state)
                                    (sw_recycle_clear_time sw - clock_time s2) s2))
                  else
                    (let s3 = obj_update obj (\<lambda>sw. sw\<lparr>sw_state := state\<rparr>) s2;
                         s4 = (if state \<noteq> 0
                               then obj_update obj
                                      (\<lambda>sw. sw\<lparr>sw_recycle_clear_time :=
                                                 clock_time s3 + sw_recycle_secs sw\<rparr>) s3
                               else s3)
                     in case ci_get (switches s4) (sw_name sw) of
                          None \<Rightarrow> None
                        | Some st \<Rightarrow>
                            if ss_state st = state then Some s4
                            else
                              (case call_handlers env (sw_name sw) state
                                      (set_state (sw_name sw) state False s4) of
                                 None \<Rightarrow> None
                               | Some s6 \<Rightarrow>
                                   (case machine_switches s6 obj of
                                      None \<Rightarrow> None
                                    | Some sw6 \<Rightarrow>
                                        monitor_loop env obj state 0
                                          (cancel_timed_handlers (sw_name sw6) state s6))))))"

definition process_switch ::
  "('u, 'm) env \<Rightarrow> string \<Rightarrow> int \<Rightarrow> bool \<Rightarrow> ('u, 'm) machine \<Rightarrow> ('u, 'm) machine option" where
  "process_switch env name state logical s =
     (if lower name \<in> dom (machine_switches s)
      then process_switch_obj env (lower name) state logical s
      else None)"

definition recycle_passed ::
  "('u, 'm) env \<Rightarrow> string \<Rightarrow> int \<Rightarrow> bool \<Rightarrow> int \<Rightarrow> ('u, 'm) machine \<Rightarrow>
     ('u, 'm) machine option" where
  "recycle_passed env obj state logical hw_state s =
     (case machine_switches s obj of
        None \<Rightarrow> None
      | Some sw \<Rightarrow>
          if sw_hw_state sw = hw_state then process_switch env (sw_name sw) state logical s
          else Some s)"

subsection \<open>Registering and removing handlers\<close>

text \<open>
  \<open>add_switch_handler\<close> with \<open>return_info=False\<close> and \<open>callback_kwargs=None\<close>, the
  defaults: the callback is registered as it is given. The result is the handler key
  and the new state.
\<close>

definition add_switch_handler ::
  "string \<Rightarrow> 'u callback \<Rightarrow> int \<Rightarrow> int \<Rightarrow> ('u, 'm) machine \<Rightarrow>
     ('u callback switch_handler \<times> ('u, 'm) machine) option" where
  "add_switch_handler switch_name callback state ms s =
     (let entry_val = RegisteredSwitch ms callback;
          entry_key = switch_key switch_name state
      in case ci_get (registered_switches s) entry_key of
           None \<Rightarrow> None
         | Some l \<Rightarrow>
             (let s1 = s\<lparr>registered_switches :=
                           ci_set (registered_switches s) entry_key (l @ [entry_val])\<rparr>;
                  key = SwitchHandler switch_name callback state ms
              in if ms = 0 then Some (key, s1)
                 else
                   (case ms_since_change switch_name s1 of
                      None \<Rightarrow> None
                    | Some since \<Rightarrow>
                        if since < ms
                        then (case (if state = 1 then is_active switch_name 0 s1
                                    else if state = 0 then is_inactive switch_name 0 s1
                                    else Some False) of
                                None \<Rightarrow> None
                              | Some False \<Rightarrow> Some (key, s1)
                              | Some True \<Rightarrow>
                                  (case add_timed_switch_handler
                                          (clock_time s1 + of_int (ms - since) / 1000)
                                          (TimedSwitchHandler callback switch_name state ms) s1 of
                                     None \<Rightarrow> None
                                   | Some s2 \<Rightarrow> Some (key, s2)))
                        else Some (key, s1))))"

text \<open>
  The first loop of \<open>remove_switch_handler\<close>: \<open>enumerate\<close> walks the live bucket by
  index, and \<open>list.remove\<close> deletes the first element equal to \<open>settings\<close> from it.
\<close>

function remove_registered ::
  "int \<Rightarrow> 'cb \<Rightarrow> nat \<Rightarrow> 'cb registered_switch list \<Rightarrow> 'cb registered_switch list" where
  "remove_registered ms callback i l =
     (if i < length l
      then (let settings = l ! i
            in if rs_ms settings = ms \<and> rs_callback settings = callback
               then remove_registered ms callback (Suc i) (remove1 settings l)
               else remove_registered ms callback (Suc i) l)
      else l)"
  by pat_completeness auto
termination
  by (relation "measure (\<lambda>(ms, callback, i, l). Suc (length l) - i)")
    (auto simp: length_remove1)

declare remove_registered.simps [simp del]

text \<open>The inner loop of its second part: \<open>del\<close> by index on the live bucket.\<close>

function remove_timed ::
  "string \<Rightarrow> 'cb \<Rightarrow> int \<Rightarrow> int \<Rightarrow> nat \<Rightarrow> 'cb timed_switch_handler list \<Rightarrow>
     'cb timed_switch_handler list" where
  "remove_timed switch_name callback state ms i v =
     (if i < length v
      then (let entry = v ! i
            in if tsh_switch_name entry = switch_name \<and> tsh_state entry = state \<and>
                  tsh_ms entry = ms \<and> tsh_callback entry = callback
               then remove_timed switch_name callback state ms (Suc i) (del_index i v)
               else remove_timed switch_name callback state ms (Suc i) v)
      else v)"
  by pat_completeness auto
termination
  by (relation "measure (\<lambda>(switch_name, callback, state, ms, i, v). Suc (length v) - i)")
    (auto simp: del_index_def)

declare remove_timed.simps [simp del]

definition remove_switch_handler ::
  "string \<Rightarrow> 'u callback \<Rightarrow> int \<Rightarrow> int \<Rightarrow> ('u, 'm) machine \<Rightarrow> ('u, 'm) machine" where
  "remove_switch_handler switch_name callback state ms s =
     (let entry_key = switch_key switch_name state;
          s1 = (case ci_get (registered_switches s) entry_key of
                  None \<Rightarrow> s
                | Some l \<Rightarrow>
                    s\<lparr>registered_switches :=
                        ci_set (registered_switches s) entry_key
                          (remove_registered ms callback 0 l)\<rparr>)
      in s1\<lparr>active_timed_switches :=
              map (\<lambda>(k, v). (k, remove_timed switch_name callback state ms 0 v))
                (active_timed_switches s1)\<rparr>)"

definition remove_switch_handler_by_key ::
  "'u callback switch_handler \<Rightarrow> ('u, 'm) machine \<Rightarrow> ('u, 'm) machine" where
  "remove_switch_handler_by_key switch_handler s =
     remove_switch_handler (sh_switch_name switch_handler) (sh_callback switch_handler)
       (sh_state switch_handler) (sh_ms switch_handler) s"

subsection \<open>Waiting for a switch\<close>

definition future_done ::
  "'u callback switch_handler list \<Rightarrow> ('u, 'm) machine \<Rightarrow> ('u, 'm) machine" where
  "future_done handlers s = fold remove_switch_handler_by_key handlers s"

text \<open>
  Modelled from the spec: the event loop runs the done-callbacks of a future once it is
  completed; \<open>cancel\<close> completes a future that is not done.
\<close>

definition run_done_callbacks :: "nat \<Rightarrow> ('u, 'm) machine \<Rightarrow> ('u, 'm) machine" where
  "run_done_callbacks fut s = fold future_done (fut_done_callbacks (futures s ! fut)) s"

definition cancel_future :: "nat \<Rightarrow> ('u, 'm) machine \<Rightarrow> ('u, 'm) machine" where
  "cancel_future fut s =
     (if fut_done (futures s ! fut) then s
      else s\<lparr>futures := (futures s)[fut := (futures s ! fut)\<lparr>fut_cancelled := True\<rparr>]\<rparr>)"

text \<open>The first loop of \<open>wait_for_any_switch\<close>: the first listed switch in the state.\<close>

fun first_in_state ::
  "string list \<Rightarrow> int \<Rightarrow> int \<Rightarrow> ('u, 'm) machine \<Rightarrow> string option option" where
  "first_in_state [] state ms s = Some None"
| "first_in_state (switch_name # rest) state ms s =
     (case is_state switch_name state ms s of
        None \<Rightarrow> None
      | Some True \<Rightarrow> Some (Some switch_name)
      | Some False \<Rightarrow> first_in_state rest state ms s)"

text \<open>
  Its second loop. The list \<open>handlers\<close> is the one that the done-callback of the future
  holds, so each \<open>append\<close> shows in \<open>fut_done_callbacks\<close>.
\<close>

fun register_wait_handlers ::
  "nat \<Rightarrow> int \<Rightarrow> int \<Rightarrow> nat \<Rightarrow> string list \<Rightarrow> ('u, 'm) machine \<Rightarrow> ('u, 'm) machine option" where
  "register_wait_handlers fut state ms i [] s = Some s"
| "register_wait_handlers fut state ms i (switch_name # rest) s =
     (case add_switch_handler switch_name (Wait_handler fut i ms switch_name) state ms s of
        None \<Rightarrow> None
      | Some (h, s1) \<Rightarrow>
          (let f = futures s1 ! fut;
               s2 = s1\<lparr>futures := (futures s1)
                         [fut := f\<lparr>fut_done_callbacks :=
                                    map (\<lambda>handlers. handlers @ [h]) (fut_done_callbacks f)\<rparr>]\<rparr>
           in register_wait_handlers fut state ms (Suc i) rest s2))"

definition wait_for_any_switch ::
  "string list \<Rightarrow> int \<Rightarrow> bool \<Rightarrow> int \<Rightarrow> ('u, 'm) machine \<Rightarrow> (nat \<times> ('u, 'm) machine) option" where
  "wait_for_any_switch switch_names state only_on_change ms s =
     (let fut = length (futures s);
          s1 = s\<lparr>futures := futures s @
                   [\<lparr>fut_result = None, fut_cancelled = False, fut_done_callbacks = []\<rparr>]\<rparr>
      in case (if \<not> only_on_change then first_in_state switch_names state ms s1
               else Some None) of
           None \<Rightarrow> None
         | Some (Some switch_name) \<Rightarrow>
             Some (fut,
               s1\<lparr>futures := (futures s1)
                    [fut := (futures s1 ! fut)
                       \<lparr>fut_result := Some \<lparr>wr_switch_name = switch_name,
                                            wr_state = Some state, wr_ms = ms\<rparr>\<rparr>]\<rparr>)
         | Some None \<Rightarrow>
             (let s2 = s1\<lparr>futures := (futures s1)
                           [fut := (futures s1 ! fut)\<lparr>fut_done_callbacks := [[]]\<rparr>]\<rparr>
              in case register_wait_handlers fut state ms 0 switch_names s2 of
                   None \<Rightarrow> None
                 | Some s3 \<Rightarrow> Some (fut, s3)))"

subsection \<open>Draining the timed queue\<close>

text \<open>Reading \<open>d[k]\<close> from the \<open>defaultdict\<close>: a missing bucket is made, empty.\<close>

definition bucket_get ::
  "rat \<Rightarrow> ('u, 'm) machine \<Rightarrow> 'u callback timed_switch_handler list \<times> ('u, 'm) machine" where
  "bucket_get k s =
     (case map_of (active_timed_switches s) k of
        None \<Rightarrow> ([], s\<lparr>active_timed_switches := active_timed_switches s @ [(k, [])]\<rparr>)
      | Some v \<Rightarrow> (v, s))"

fun process_entries ::
  "('u, 'm) env \<Rightarrow> rat \<Rightarrow> 'u callback timed_switch_handler list \<Rightarrow> ('u, 'm) machine \<Rightarrow>
     ('u, 'm) machine option" where
  "process_entries env k [] s = Some s"
| "process_entries env k (entry # rest) s =
     (let (live, s1) = bucket_get k s
      in if entry \<notin> set live then process_entries env k rest s1
         else (case invoke env (tsh_callback entry) s1 of
                 None \<Rightarrow> None
               | Some s2 \<Rightarrow> process_entries env k rest s2))"

text \<open>
  \<open>next_event_time\<close> is \<open>False\<close> (here \<open>None\<close>) or a float; it is replaced when it is
  falsy, which the float \<open>0.0\<close> is too, or later than \<open>k\<close>.
\<close>

definition next_event_update :: "rat option \<Rightarrow> rat \<Rightarrow> rat option" where
  "next_event_update next_event_time k =
     (case next_event_time of
        None \<Rightarrow> Some k
      | Some t \<Rightarrow> if t = 0 \<or> k < t then Some k else Some t)"

fun process_keys ::
  "('u, 'm) env \<Rightarrow> rat list \<Rightarrow> rat option \<Rightarrow> ('u, 'm) machine \<Rightarrow>
     (rat option \<times> ('u, 'm) machine) option" where
  "process_keys env [] next_event_time s = Some (next_event_time, s)"
| "process_keys env (k # ks) next_event_time s =
     (if k \<le> clock_time s
      then (let (snapshot, s1) = bucket_get k s
            in case process_entries env k snapshot s1 of
                 None \<Rightarrow> None
               | Some s2 \<Rightarrow>
                   if k \<in> fst ` set (active_timed_switches s2)
                   then process_keys env ks next_event_time
                          (s2\<lparr>active_timed_switches := AList.delete k (active_timed_switches s2)\<rparr>)
                   else None)
      else process_keys env ks (next_event_update next_event_time k) s)"

definition process_active_timed_switches ::
  "('u, 'm) env \<Rightarrow> ('u, 'm) machine \<Rightarrow> ('u, 'm) machine option" where
  "process_active_timed_switches env s =
     (case process_keys env (map fst (active_timed_switches s)) None s of
        None \<Rightarrow> None
      | Some (next_event_time, s1) \<Rightarrow>
          (case process_event_queue env s1 of
             None \<Rightarrow> None
           | Some s2 \<Rightarrow>
               (case next_event_time of
                  None \<Rightarrow> Some s2
                | Some t \<Rightarrow>
                    if t = 0 then Some s2
                    else
                      (let s3 = (case timed_switch_handler_delay s2 of
                                   None \<Rightarrow> s2
                                 | Some h \<Rightarrow> unschedule h s2);
                           (h, s4) = schedule_once Process_active_timed_switches
                                       (t - clock_time s3) s3
                       in Some (s4\<lparr>timed_switch_handler_delay := Some h\<rparr>)))))"

text \<open>
  Modelled from the spec: the clock fires a timer that is due; the timer is no longer
  outstanding, and its callable runs.
\<close>

definition fire_timer ::
  "('u, 'm) env \<Rightarrow> nat \<Rightarrow> ('u, 'm) machine \<Rightarrow> ('u, 'm) machine option" where
  "fire_timer env h s =
     (case filter (\<lambda>t. tm_handle t = h) (clock_timers s) of
        [] \<Rightarrow> Some s
      | t # _ \<Rightarrow>
          if tm_deadline t \<le> clock_time s
          then (case tm_action t of
                  Process_active_timed_switches \<Rightarrow>
                    process_active_timed_switches env (unschedule h s)
                | Recycle_passed obj state logical hw_state \<Rightarrow>
                    recycle_passed env obj state logical hw_state (unschedule h s))
          else Some s)"

subsection \<open>Construction\<close>

text \<open>The state that \<open>__init__\<close> leaves, at a given clock reading.\<close>

definition init :: "rat \<Rightarrow> ('u, 'm) machine" where
  "init now =
     \<lparr>registered_switches = Map.empty, timed_switch_handler_delay = None,
      active_timed_switches = [], switches = Map.empty, monitors = [],
      machine_switches = Map.empty, clock_time = now, clock_timers = [],
      clock_next_handle = 0, futures = []\<rparr>"

definition register_switch :: "string \<Rightarrow> ('u, 'm) machine \<Rightarrow> ('u, 'm) machine" where
  "register_switch name s =
     set_state name 0 True
       (s\<lparr>registered_switches :=
            ci_set (ci_set (registered_switches s) (name @ ''-0'') []) (name @ ''-1'') []\<rparr>)"

text \<open>A switch device as configured, inactive, with no recycle window running.\<close>

definition new_switch :: "string \<Rightarrow> nat \<Rightarrow> bool \<Rightarrow> rat \<Rightarrow> switch" where
  "new_switch name number invert recycle_secs =
     \<lparr>sw_name = name, sw_label = name, sw_platform = 0, sw_number = number,
      sw_invert = invert, sw_state = 0, sw_hw_state = (if invert then 1 else 0),
      sw_recycle_secs = recycle_secs, sw_recycle_clear_time = 0,
      sw_recycle_jitter_count = 0\<rparr>"

definition add_device :: "switch \<Rightarrow> ('u, 'm) machine \<Rightarrow> ('u, 'm) machine" where
  "add_device sw s =
     register_switch (sw_name sw)
       (s\<lparr>machine_switches := ci_set (machine_switches s) (sw_name sw) sw\<rparr>)"

subsection \<open>Scenarios\<close>

text \<open>
  A switch \<open>a\<close> that became active at clock reading 0, read half a millisecond later.
\<close>

definition tie_state :: "(nat, nat) machine" where
  "tie_state =
     (set_state ''a'' 1 False (add_device (new_switch ''a'' 1 False 0) (init 0)))
       \<lparr>clock_time := 1 / 2000\<rparr>"

text \<open>An environment whose callbacks, monitors and event queue do nothing.\<close>

definition quiet_env :: "(nat, nat) env" where
  "quiet_env =
     \<lparr>run_callback = (\<lambda>u s. Some s), run_monitor = (\<lambda>m c s. Some s),
      process_event_queue = Some\<rparr>"

text \<open>A machine at clock reading 0 with the one switch \<open>a\<close>, normally open.\<close>

definition machine_a :: "(nat, nat) machine" where
  "machine_a = add_device (new_switch ''a'' 1 False 0) (init 0)"

text \<open>The same callback registered three times for \<open>a\<close> becoming active.\<close>

definition three_registered :: "(nat, nat) machine option" where
  "three_registered =
     Option.bind (add_switch_handler ''a'' (User 7) 1 0 machine_a) (\<lambda>(h1, s1).
     Option.bind (add_switch_handler ''a'' (User 7) 1 0 s1) (\<lambda>(h2, s2).
     Option.bind (add_switch_handler ''a'' (User 7) 1 0 s2) (\<lambda>(h3, s3).
     Some s3)))"

text \<open>
  Two handlers that want \<open>a\<close> active for 250 ms; \<open>a\<close> becomes active at clock reading 0
  and inactive at 0.1.
\<close>

definition two_dwelling :: "(nat, nat) machine option" where
  "two_dwelling =
     Option.bind (add_switch_handler ''a'' (User 1) 1 250 machine_a) (\<lambda>(h1, s1).
     Option.bind (add_switch_handler ''a'' (User 2) 1 250 s1) (\<lambda>(h2, s2).
     process_switch quiet_env ''a'' 1 True s2))"

definition two_dwelling_released :: "(nat, nat) machine option" where
  "two_dwelling_released =
     Option.bind two_dwelling (\<lambda>s.
     process_switch quiet_env ''a'' 0 True (s\<lparr>clock_time := 1 / 10\<rparr>))"

text \<open>
  Scenario 5 of the specification: the switch \<open>pop\<close> with a recycle time of half a second,
  activated at clock reading 0.
\<close>

definition machine_pop :: "(nat, nat) machine" where
  "machine_pop = add_device (new_switch ''pop'' 3 False (1 / 2)) (init 0)"

definition pop_active :: "(nat, nat) machine" where
  "pop_active = the (process_switch quiet_env ''pop'' 1 True machine_pop)"

definition pop_device :: switch where
  "pop_device =
     (new_switch ''pop'' 3 False (1 / 2))
       \<lparr>sw_state := 1, sw_hw_state := 1, sw_recycle_clear_time := 1 / 2\<rparr>"

text \<open>
  Scenario 4 of the specification: the switch \<open>a\<close> became active at clock reading 0 and
  the clock now reads 0.1.
\<close>

definition a_active_later :: "(nat, nat) machine" where
  "a_active_later = (set_state ''a'' 1 False machine_a)\<lparr>clock_time := 1 / 10\<rparr>"

text \<open>
  What a theorem may ask of the environment: that no callback and no monitor changes
  the part \<open>f\<close> of the state.
\<close>

definition env_keeps :: "(('u, 'm) machine \<Rightarrow> 'x) \<Rightarrow> ('u, 'm) env \<Rightarrow> bool" where
  "env_keeps f env \<longleftrightarrow>
     (\<forall>u s s'. run_callback env u s = Some s' \<longrightarrow> f s' = f s) \<and>
     (\<forall>m c s s'. run_monitor env m c s = Some s' \<longrightarrow> f s' = f s)"

text \<open>
  The state in which \<open>process_switch_obj\<close> has written the device, before it looks at
  the state store (lines 292 to 305).
\<close>

definition device_written ::
  "string \<Rightarrow> switch \<Rightarrow> int \<Rightarrow> int \<Rightarrow> ('u, 'm) machine \<Rightarrow> ('u, 'm) machine" where
  "device_written obj sw st hw s =
     s\<lparr>machine_switches := (machine_switches s)
         (obj \<mapsto> sw\<lparr>sw_hw_state := hw, sw_state := st,
                   sw_recycle_clear_time :=
                     (if st = 0 then sw_recycle_clear_time sw
                      else clock_time s + sw_recycle_secs sw)\<rparr>)\<rparr>"

text \<open>
  Scenario 2 of the specification: the normally-closed switch \<open>tilt\<close> on a machine at
  clock reading 0.
\<close>

definition machine_tilt :: "(nat, nat) machine" where
  "machine_tilt = add_device (new_switch ''tilt'' 2 True 0) (init 0)"

section \<open>Properties\<close>

subsection \<open>Evaluation\<close>

lemmas store_defs =
  ms_since_change_def set_state_def is_state_def is_active_def is_inactive_def
  ci_get_def ci_set_def

lemmas string_defs =
  lower_def lower_char_def switch_key_def str_int_def str_nat.simps digit_char_def

lemmas build_defs =
  init_def register_switch_def new_switch_def add_device_def

lemma floor_half [simp]: "\<lfloor>1 / 2 :: rat\<rfloor> = 0"
  by (simp add: floor_eq_iff)

subsection \<open>Rounding\<close>

lemma py_round_cases:
  fixes x :: rat
  obtains f where "of_int f \<le> x" and "x < of_int f + 1 / 2" and "py_round x = f"
  | f where "of_int f + 1 / 2 < x" and "x < of_int f + 1" and "py_round x = f + 1"
  | f where "x = of_int f + 1 / 2" and "even f" and "py_round x = f"
  | f where "x = of_int f + 1 / 2" and "odd f" and "py_round x = f + 1"
proof -
  define f where "f = \<lfloor>x\<rfloor>"
  have b: "of_int f \<le> x" "x < of_int f + 1"
    unfolding f_def by linarith+
  have p: "py_round x =
      (if x - of_int f < 1 / 2 then f
       else if 1 / 2 < x - of_int f then f + 1
       else if even f then f else f + 1)"
    unfolding py_round_def f_def Let_def ..
  consider "x - of_int f < 1 / 2" | "1 / 2 < x - of_int f" | "x - of_int f = 1 / 2"
    by linarith
  then show thesis
  proof cases
    case 1
    then show ?thesis using that(1)[of f] b p by simp
  next
    case 2
    then show ?thesis using that(2)[of f] b p by simp
  next
    case 3
    then have "x = of_int f + 1 / 2" by simp
    then show ?thesis
      using that(3)[of f] that(4)[of f] p 3 by (cases "even f") simp_all
  qed
qed

lemma py_round_nearest: "\<bar>of_int (py_round x) - x\<bar> \<le> 1 / 2"
  by (rule py_round_cases[of x]) (simp_all add: abs_if)

lemma py_round_tie_even: "\<bar>of_int (py_round x) - x\<bar> = 1 / 2 \<Longrightarrow> even (py_round x)"
  by (rule py_round_cases[of x]) (simp_all add: abs_if split: if_splits)

lemma py_round_zero [simp]: "py_round 0 = 0"
  by (simp add: py_round_def)

text \<open>
  C5, as the specification states it: \<open>ms_since_change\<close> rounds a tie away from zero, so
  that half a millisecond gives 1. On the code it gives 0.
\<close>

theorem ms_since_change_half_away_counterexample:
  "ms_since_change ''a'' tie_state = Some 0 \<and>
   round_half_away ((clock_time tie_state - 0) * 1000) = 1"
  by (simp add: tie_state_def store_defs string_defs build_defs py_round_def
      round_half_away_def Let_def)

text \<open>
  C5, amended: for every switch name in the store and every clock reading,
  \<open>ms_since_change\<close> returns the integer nearest to the elapsed time in milliseconds,
  \<open>(now - last_change_time) * 1000\<close>, and of the two integers nearest to a tie the even
  one.
\<close>

theorem ms_since_change_rounds_half_even:
  assumes "ci_get (switches s) name = Some st"
  shows "\<exists>r. ms_since_change name s = Some r \<and>
             \<bar>of_int r - (clock_time s - ss_time st) * 1000\<bar> \<le> 1 / 2 \<and>
             (\<bar>of_int r - (clock_time s - ss_time st) * 1000\<bar> = 1 / 2 \<longrightarrow> even r)"
  using assms py_round_nearest py_round_tie_even
  by (simp add: ms_since_change_def)

theorem ms_since_change_rounds_half_even_witness:
  "ci_get (switches tie_state) ''a'' = Some (SwitchState 1 0) \<and>
   (\<exists>r. ms_since_change ''a'' tie_state = Some r \<and>
        \<bar>of_int r - (clock_time tie_state - ss_time (SwitchState 1 0)) * 1000\<bar> = 1 / 2 \<and>
        even r)"
proof -
  have h: "ci_get (switches tie_state) ''a'' = Some (SwitchState 1 0)"
    by (simp add: tie_state_def store_defs string_defs build_defs)
  have t: "(clock_time tie_state - ss_time (SwitchState 1 0)) * 1000 = 1 / 2"
    by (simp add: tie_state_def)
  from ms_since_change_rounds_half_even [OF h] obtain r where
    r: "ms_since_change ''a'' tie_state = Some r"
      "\<bar>of_int r - (clock_time tie_state - ss_time (SwitchState 1 0)) * 1000\<bar> = 1 / 2
         \<longrightarrow> even r"
    by blast
  have "r = 0"
    using r(1) by (simp add: tie_state_def store_defs string_defs build_defs py_round_def Let_def)
  with h r t show ?thesis by simp
qed

lemmas handler_defs =
  add_switch_handler_def remove_switch_handler_def remove_switch_handler_by_key_def
  remove_registered.simps remove_timed.simps add_timed_switch_handler_def bucket_append_def
  get_next_timed_switch_event_def schedule_once_def unschedule_def del_index_def

lemmas dispatch_defs =
  process_switch_def process_switch_obj_def flip_states_def check_recycle_time_def
  obj_update_def call_handlers_def cancel_timed_handlers_def cancel_items.simps
  monitor_loop.simps invoke_def wait_handler_def fut_done_def

subsection \<open>Removing a handler\<close>

text \<open>
  C4 on the code: with three identical records in the bucket of \<open>a\<close> and state 1,
  \<open>remove_switch_handler\<close> removes two of them, not the first one only.
\<close>

theorem remove_switch_handler_three_identical:
  "map_option (\<lambda>s. ci_get (registered_switches s) ''a-1'') three_registered =
     Some (Some [RegisteredSwitch 0 (User 7), RegisteredSwitch 0 (User 7),
                 RegisteredSwitch 0 (User 7)]) \<and>
   map_option
     (\<lambda>s. ci_get (registered_switches (remove_switch_handler ''a'' (User 7) 1 0 s)) ''a-1'')
     three_registered =
     Some (Some [RegisteredSwitch 0 (User 7)])"
  by (simp add: three_registered_def machine_a_def store_defs string_defs build_defs
      handler_defs Let_def)

subsection \<open>Cancelling the pendings of the opposite state\<close>

text \<open>
  C2 on the code: two pendings wait in one bucket for \<open>a\<close> to stay active; when \<open>a\<close>
  becomes inactive, the transition is accepted and \<open>_cancel_timed_handlers\<close> removes the
  first pending only. The second stays in the queue, though it watches state 1 and the
  switch has just entered state 0.
\<close>

theorem cancel_timed_handlers_leaves_second:
  "map_option active_timed_switches two_dwelling =
     Some [(1 / 4, [TimedSwitchHandler (User 1) ''a'' 1 250,
                    TimedSwitchHandler (User 2) ''a'' 1 250])] \<and>
   map_option (\<lambda>s. ci_get (switches s) ''a'') two_dwelling_released =
     Some (Some (SwitchState 0 (1 / 10))) \<and>
   map_option active_timed_switches two_dwelling_released =
     Some [(1 / 4, [TimedSwitchHandler (User 2) ''a'' 1 250])]"
  by (simp add: two_dwelling_released_def two_dwelling_def machine_a_def quiet_env_def
      store_defs string_defs build_defs handler_defs dispatch_defs Let_def)

subsection \<open>The recycle gate and the duplicate-state rule\<close>

lemma pop_active_eq:
  "pop_active =
     (set_state ''pop'' 1 False machine_pop)\<lparr>machine_switches := [''pop'' \<mapsto> pop_device]\<rparr>"
  by (simp add: pop_active_def pop_device_def machine_pop_def quiet_env_def
      store_defs string_defs build_defs handler_defs dispatch_defs Let_def)

text \<open>
  C6: an activation (logical state 1 after the flip for a normally-closed switch) that
  arrives while the clock is before \<open>recycle_clear_time\<close> returns with nothing changed
  but the device's \<open>hw_state\<close> and \<open>recycle_jitter_count\<close>, which is incremented, and one
  more timer on the clock, due at \<open>recycle_clear_time\<close>. The state store, the registry,
  the timed queue, the monitors and the device's \<open>state\<close> are as before, and no callback
  or monitor is called, whatever the environment. The timer's callable processes the
  switch again only if the device's \<open>hw_state\<close> is then still the one of the rejection.
\<close>

theorem recycle_gate_rejects:
  assumes dev: "ci_get (machine_switches s) name = Some sw"
    and act: "flip_states (sw_invert sw) logical state0 = (1, hw)"
    and early: "clock_time s < sw_recycle_clear_time sw"
  shows "process_switch env name state0 logical s =
           Some (s\<lparr>machine_switches := (machine_switches s)
                     (lower name \<mapsto> sw\<lparr>sw_hw_state := hw,
                        sw_recycle_jitter_count := sw_recycle_jitter_count sw + 1\<rparr>),
                   clock_timers := clock_timers s @
                     [\<lparr>tm_handle = clock_next_handle s,
                       tm_deadline = sw_recycle_clear_time sw,
                       tm_action = Recycle_passed (lower name) 1 logical hw\<rparr>],
                   clock_next_handle := Suc (clock_next_handle s)\<rparr>) \<and>
         (\<forall>s2 sw2. machine_switches s2 (lower name) = Some sw2 \<longrightarrow>
            recycle_passed env (lower name) 1 logical hw s2 =
              (if sw_hw_state sw2 = hw then process_switch env (sw_name sw2) 1 logical s2
               else Some s2))"
  using assms
  by (simp add: process_switch_def process_switch_obj_def check_recycle_time_def
      obj_update_def schedule_once_def recycle_passed_def ci_get_def dom_def Let_def)

theorem recycle_gate_rejects_witness:
  "ci_get (machine_switches (pop_active\<lparr>clock_time := 1 / 5\<rparr>)) ''pop'' = Some pop_device \<and>
   flip_states (sw_invert pop_device) True 1 = (1, 1) \<and>
   clock_time (pop_active\<lparr>clock_time := 1 / 5\<rparr>) < sw_recycle_clear_time pop_device \<and>
   map_option clock_timers
     (process_switch quiet_env ''pop'' 1 True (pop_active\<lparr>clock_time := 1 / 5\<rparr>)) =
     Some [\<lparr>tm_handle = 0, tm_deadline = 1 / 2,
            tm_action = Recycle_passed ''pop'' 1 True 1\<rparr>] \<and>
   map_option (\<lambda>s. map_option sw_recycle_jitter_count (machine_switches s ''pop''))
     (process_switch quiet_env ''pop'' 1 True (pop_active\<lparr>clock_time := 1 / 5\<rparr>)) =
     Some (Some 1) \<and>
   recycle_passed quiet_env ''pop'' 1 True 1
     (pop_active\<lparr>machine_switches := [''pop'' \<mapsto> pop_device\<lparr>sw_hw_state := 0\<rparr>]\<rparr>) =
     Some (pop_active\<lparr>machine_switches := [''pop'' \<mapsto> pop_device\<lparr>sw_hw_state := 0\<rparr>]\<rparr>)"
proof -
  have h1: "ci_get (machine_switches (pop_active\<lparr>clock_time := 1 / 5\<rparr>)) ''pop'' =
      Some pop_device"
    by (simp add: pop_active_eq store_defs string_defs)
  have h2: "flip_states (sw_invert pop_device) True 1 = (1, 1)"
    by (simp add: pop_device_def new_switch_def flip_states_def)
  have h3: "clock_time (pop_active\<lparr>clock_time := 1 / 5\<rparr>) < sw_recycle_clear_time pop_device"
    by (simp add: pop_device_def)
  have l: "lower ''pop'' = ''pop''"
    by (simp add: string_defs)
  have t: "clock_timers pop_active = []" "clock_next_handle pop_active = 0"
    by (simp_all add: pop_active_eq machine_pop_def store_defs build_defs)
  have j: "sw_recycle_jitter_count pop_device = 0" "sw_hw_state pop_device = 1"
    by (simp_all add: pop_device_def new_switch_def)
  have r: "sw_recycle_clear_time pop_device = 1 / 2"
    by (simp add: pop_device_def)
  have m: "machine_switches
      (pop_active\<lparr>machine_switches := [''pop'' \<mapsto> pop_device\<lparr>sw_hw_state := 0\<rparr>]\<rparr>)
      (lower ''pop'') = Some (pop_device\<lparr>sw_hw_state := 0\<rparr>)"
    by (simp add: l)
  note g = recycle_gate_rejects [OF h1 h2 h3, of quiet_env]
  from g have "process_switch quiet_env ''pop'' 1 True (pop_active\<lparr>clock_time := 1 / 5\<rparr>) =
      Some (pop_active\<lparr>clock_time := 1 / 5,
              machine_switches := (machine_switches pop_active)
                (''pop'' \<mapsto> pop_device\<lparr>sw_hw_state := 1, sw_recycle_jitter_count := 1\<rparr>),
              clock_timers := [\<lparr>tm_handle = 0, tm_deadline = 1 / 2,
                                tm_action = Recycle_passed ''pop'' 1 True 1\<rparr>],
              clock_next_handle := Suc 0\<rparr>)"
    by (simp add: l t j r)
  moreover from g m have "recycle_passed quiet_env ''pop'' 1 True 1
      (pop_active\<lparr>machine_switches := [''pop'' \<mapsto> pop_device\<lparr>sw_hw_state := 0\<rparr>]\<rparr>) =
      Some (pop_active\<lparr>machine_switches := [''pop'' \<mapsto> pop_device\<lparr>sw_hw_state := 0\<rparr>]\<rparr>)"
    by (simp add: l)
  ultimately show ?thesis
    using h1 h2 h3 by simp
qed

text \<open>
  C10: when the recycle gate lets the transition pass and the store already records
  the incoming logical state, \<open>process_switch_obj\<close> returns with the state store, the
  registry, the timed queue and the monitors as they were, and no callback or monitor
  called; only the device has changed: \<open>hw_state\<close> and \<open>state\<close> are written again and,
  for an activation, \<open>recycle_clear_time\<close> becomes the clock reading plus \<open>recycle_secs\<close>,
  which is later than the old one when \<open>recycle_secs\<close> is positive.
\<close>

theorem duplicate_state_branch:
  assumes dev: "ci_get (machine_switches s) name = Some sw"
    and fl: "flip_states (sw_invert sw) logical state0 = (st, hw)"
    and gate: "st = 0 \<or> sw_recycle_clear_time sw \<le> clock_time s"
    and dup: "ci_get (switches s) (sw_name sw) = Some e" "ss_state e = st"
  shows "process_switch env name state0 logical s =
           Some (s\<lparr>machine_switches := (machine_switches s)
                     (lower name \<mapsto> sw\<lparr>sw_hw_state := hw, sw_state := st,
                        sw_recycle_clear_time :=
                          (if st = 0 then sw_recycle_clear_time sw
                           else clock_time s + sw_recycle_secs sw)\<rparr>)\<rparr>) \<and>
         (st \<noteq> 0 \<and> 0 < sw_recycle_secs sw \<longrightarrow>
            sw_recycle_clear_time sw < clock_time s + sw_recycle_secs sw)"
  using assms
  by (auto simp add: process_switch_def process_switch_obj_def check_recycle_time_def
      obj_update_def ci_get_def dom_def)

theorem duplicate_state_branch_witness:
  "ci_get (machine_switches (pop_active\<lparr>clock_time := 1\<rparr>)) ''pop'' = Some pop_device \<and>
   flip_states (sw_invert pop_device) True 1 = (1, 1) \<and>
   sw_recycle_clear_time pop_device \<le> clock_time (pop_active\<lparr>clock_time := 1\<rparr>) \<and>
   ci_get (switches (pop_active\<lparr>clock_time := 1\<rparr>)) (sw_name pop_device) =
     Some (SwitchState 1 0) \<and>
   process_switch quiet_env ''pop'' 1 True (pop_active\<lparr>clock_time := 1\<rparr>) =
     Some (pop_active\<lparr>clock_time := 1,
             machine_switches := [''pop'' \<mapsto> pop_device\<lparr>sw_recycle_clear_time := 3 / 2\<rparr>]\<rparr>) \<and>
   sw_recycle_clear_time pop_device < 3 / 2"
proof -
  have h1: "ci_get (machine_switches (pop_active\<lparr>clock_time := 1\<rparr>)) ''pop'' = Some pop_device"
    by (simp add: pop_active_eq store_defs string_defs)
  have h2: "flip_states (sw_invert pop_device) True 1 = (1, 1)"
    by (simp add: pop_device_def new_switch_def flip_states_def)
  have h3: "(1::int) = 0 \<or>
      sw_recycle_clear_time pop_device \<le> clock_time (pop_active\<lparr>clock_time := 1\<rparr>)"
    by (simp add: pop_device_def)
  have h4: "ci_get (switches (pop_active\<lparr>clock_time := 1\<rparr>)) (sw_name pop_device) =
      Some (SwitchState 1 0)"
    by (simp add: pop_active_eq pop_device_def machine_pop_def store_defs string_defs build_defs)
  have h5: "ss_state (SwitchState 1 0) = 1"
    by simp
  have l: "lower ''pop'' = ''pop''"
    by (simp add: string_defs)
  have d: "pop_device\<lparr>sw_hw_state := 1, sw_state := 1, sw_recycle_clear_time := 3 / 2\<rparr> =
      pop_device\<lparr>sw_recycle_clear_time := 3 / 2\<rparr>"
    by (simp add: pop_device_def new_switch_def)
  have m: "machine_switches pop_active = [''pop'' \<mapsto> pop_device]"
    by (simp add: pop_active_eq)
  have r: "sw_recycle_secs pop_device = 1 / 2" "sw_recycle_clear_time pop_device = 1 / 2"
    by (simp_all add: pop_device_def new_switch_def)
  from duplicate_state_branch [OF h1 h2 h3 h4 h5, of quiet_env] show ?thesis
    using h1 h2 h3 h4 by (simp add: l d m r)
qed

subsection \<open>Inserting into the timed queue\<close>

lemma bucket_append_not_empty: "bucket_append k v d \<noteq> []"
  by (cases "map_of d k") (auto simp: bucket_append_def dest: map_of_SomeD)

lemma map_of_bucket_append:
  "map_of (bucket_append k v d) k =
     Some ((case map_of d k of None \<Rightarrow> [] | Some l \<Rightarrow> l) @ [v])"
  by (cases "map_of d k") (simp_all add: bucket_append_def update_conv' map_add_def)

lemma add_timed_switch_handler_result:
  "\<exists>s'. add_timed_switch_handler t h s = Some s' \<and>
        active_timed_switches s' = bucket_append t h (active_timed_switches s) \<and>
        registered_switches s' = registered_switches s \<and>
        switches s' = switches s \<and>
        machine_switches s' = machine_switches s \<and>
        monitors s' = monitors s \<and>
        futures s' = futures s \<and>
        clock_time s' = clock_time s"
  by (cases "timed_switch_handler_delay s")
    (simp_all add: add_timed_switch_handler_def get_next_timed_switch_event_def
      bucket_append_not_empty schedule_once_def unschedule_def Let_def)

lemma py_round_nonneg: "0 \<le> x \<Longrightarrow> 0 \<le> py_round x"
  using py_round_nearest [of x] by linarith

text \<open>
  C7: \<open>add_switch_handler\<close> with a positive \<open>ms\<close> for a registered switch whose last
  change is not in the future. When the switch is in \<open>state\<close> and \<open>ms_since_change\<close> is
  less than \<open>ms\<close>, the pending for the switch, the state, \<open>ms\<close> and the callback is
  appended to the bucket of the deadline \<open>now + (ms - ms_since_change) / 1000\<close>;
  otherwise the queue is as before. The deadline is within half a millisecond (the
  rounding of \<open>ms_since_change\<close>) of the time at which the switch will have been in
  the state for \<open>ms\<close> milliseconds.
\<close>

theorem add_switch_handler_late_join:
  assumes ms: "0 < ms"
    and st01: "state = 0 \<or> state = 1"
    and reg: "ci_get (registered_switches s) (switch_key switch_name state) = Some l"
    and sto: "ci_get (switches s) switch_name = Some e"
    and past: "ss_time e \<le> clock_time s"
    and since: "ms_since_change switch_name s = Some since"
  shows "\<exists>s'. add_switch_handler switch_name callback state ms s =
               Some (SwitchHandler switch_name callback state ms, s') \<and>
             active_timed_switches s' =
               (if ss_state e = state \<and> since < ms
                then bucket_append (clock_time s + of_int (ms - since) / 1000)
                       (TimedSwitchHandler callback switch_name state ms)
                       (active_timed_switches s)
                else active_timed_switches s) \<and>
             \<bar>clock_time s + of_int (ms - since) / 1000 - (ss_time e + of_int ms / 1000)\<bar>
               \<le> 1 / 2000"
proof -
  define s1 where "s1 = s\<lparr>registered_switches :=
      ci_set (registered_switches s) (switch_key switch_name state)
        (l @ [RegisteredSwitch ms callback])\<rparr>"
  have r: "since = py_round ((clock_time s - ss_time e) * 1000)"
    using since sto by (simp add: ms_since_change_def)
  have nonneg: "0 \<le> since"
    unfolding r using past by (intro py_round_nonneg) simp
  have m1: "ms_since_change switch_name s1 = Some since"
    using since sto by (simp add: s1_def ms_since_change_def)
  define chk where "chk = (if state = 1 then is_active switch_name 0 s1
                           else if state = 0 then is_inactive switch_name 0 s1
                           else Some False)"
  have in_state: "chk = Some (ss_state e = state)"
    using st01 sto m1 nonneg
    by (auto simp: chk_def is_active_def is_inactive_def is_state_def s1_def)
  have unfolded: "add_switch_handler switch_name callback state ms s =
      (case ms_since_change switch_name s1 of
         None \<Rightarrow> None
       | Some since \<Rightarrow>
           if since < ms
           then (case chk of
                   None \<Rightarrow> None
                 | Some False \<Rightarrow> Some (SwitchHandler switch_name callback state ms, s1)
                 | Some True \<Rightarrow>
                     (case add_timed_switch_handler
                             (clock_time s1 + of_int (ms - since) / 1000)
                             (TimedSwitchHandler callback switch_name state ms) s1 of
                        None \<Rightarrow> None
                      | Some s2 \<Rightarrow> Some (SwitchHandler switch_name callback state ms, s2)))
           else Some (SwitchHandler switch_name callback state ms, s1))"
    using ms reg unfolding add_switch_handler_def Let_def s1_def chk_def by simp
  have close: "\<bar>clock_time s + of_int (ms - since) / 1000 - (ss_time e + of_int ms / 1000)\<bar>
      \<le> 1 / 2000"
  proof -
    have "\<bar>of_int since - (clock_time s - ss_time e) * 1000\<bar> \<le> 1 / 2"
      unfolding r by (rule py_round_nearest)
    moreover have "clock_time s + of_int (ms - since) / 1000 - (ss_time e + of_int ms / 1000) =
        - (of_int since - (clock_time s - ss_time e) * 1000) / 1000"
      by (simp add: field_simps)
    ultimately show ?thesis by (simp only: abs_minus abs_divide) simp
  qed
  show ?thesis
  proof (cases "ss_state e = state \<and> since < ms")
    case True
    obtain s2 where s2: "add_timed_switch_handler
          (clock_time s1 + of_int (ms - since) / 1000)
          (TimedSwitchHandler callback switch_name state ms) s1 = Some s2"
        "active_timed_switches s2 =
           bucket_append (clock_time s1 + of_int (ms - since) / 1000)
             (TimedSwitchHandler callback switch_name state ms) (active_timed_switches s1)"
      using add_timed_switch_handler_result by blast
    have "add_switch_handler switch_name callback state ms s =
        Some (SwitchHandler switch_name callback state ms, s2)"
      using True s2(1) by (simp add: unfolded m1 in_state)
    with s2(2) True close show ?thesis by (simp add: s1_def)
  next
    case False
    have "add_switch_handler switch_name callback state ms s =
        Some (SwitchHandler switch_name callback state ms, s1)"
      using False by (auto simp add: unfolded m1 in_state)
    with False close show ?thesis by (auto simp: s1_def)
  qed
qed

theorem add_switch_handler_late_join_witness:
  "(0::int) < 300 \<and>
   ci_get (registered_switches a_active_later) (switch_key ''a'' 1) = Some [] \<and>
   ci_get (switches a_active_later) ''a'' = Some (SwitchState 1 0) \<and>
   ss_time (SwitchState 1 0) \<le> clock_time a_active_later \<and>
   ms_since_change ''a'' a_active_later = Some 100 \<and>
   (\<exists>s'. add_switch_handler ''a'' (User 1) 1 300 a_active_later =
            Some (SwitchHandler ''a'' (User 1) 1 300, s') \<and>
          active_timed_switches s' = [(3 / 10, [TimedSwitchHandler (User 1) ''a'' 1 300])])"
proof -
  have h1: "(0::int) < 300"
    by simp
  have h2: "(1::int) = 0 \<or> (1::int) = 1"
    by simp
  have h3: "ci_get (registered_switches a_active_later) (switch_key ''a'' 1) = Some []"
    by (simp add: a_active_later_def machine_a_def store_defs string_defs build_defs)
  have h4: "ci_get (switches a_active_later) ''a'' = Some (SwitchState 1 0)"
    by (simp add: a_active_later_def machine_a_def store_defs string_defs build_defs)
  have h5: "ss_time (SwitchState 1 0) \<le> clock_time a_active_later"
    by (simp add: a_active_later_def)
  have h6: "ms_since_change ''a'' a_active_later = Some 100"
    by (simp add: a_active_later_def machine_a_def store_defs string_defs build_defs
        py_round_def Let_def)
  have q: "active_timed_switches a_active_later = []" "clock_time a_active_later = 1 / 10"
    by (simp_all add: a_active_later_def machine_a_def store_defs build_defs)
  from add_switch_handler_late_join [OF h1 h2 h3 h4 h5 h6, of "User 1"] show ?thesis
    using h3 h4 h5 h6 by (simp add: q bucket_append_def)
qed

subsection \<open>The paths of \<open>process_switch_obj\<close>\<close>

lemma process_switch_obj_passed:
  assumes dev: "machine_switches s obj = Some sw"
    and fl: "flip_states (sw_invert sw) logical state0 = (st, hw)"
    and gate: "st = 0 \<or> sw_recycle_clear_time sw \<le> clock_time s"
  shows "process_switch_obj env obj state0 logical s =
     (case ci_get (switches s) (sw_name sw) of
        None \<Rightarrow> None
      | Some e \<Rightarrow>
          if ss_state e = st then Some (device_written obj sw st hw s)
          else
            (case call_handlers env (sw_name sw) st
                    (set_state (sw_name sw) st False (device_written obj sw st hw s)) of
               None \<Rightarrow> None
             | Some s6 \<Rightarrow>
                 (case machine_switches s6 obj of
                    None \<Rightarrow> None
                  | Some sw6 \<Rightarrow>
                      monitor_loop env obj st 0
                        (cancel_timed_handlers (sw_name sw6) st s6))))"
proof -
  have w: "(if st \<noteq> 0
        then obj_update obj
               (\<lambda>sw. sw\<lparr>sw_recycle_clear_time :=
                          clock_time
                            (obj_update obj (\<lambda>sw. sw\<lparr>sw_state := st\<rparr>)
                               (obj_update obj (\<lambda>sw. sw\<lparr>sw_hw_state := hw\<rparr>) s)) +
                          sw_recycle_secs sw\<rparr>)
               (obj_update obj (\<lambda>sw. sw\<lparr>sw_state := st\<rparr>)
                  (obj_update obj (\<lambda>sw. sw\<lparr>sw_hw_state := hw\<rparr>) s))
        else obj_update obj (\<lambda>sw. sw\<lparr>sw_state := st\<rparr>)
               (obj_update obj (\<lambda>sw. sw\<lparr>sw_hw_state := hw\<rparr>) s)) =
      device_written obj sw st hw s"
    using dev by (simp add: obj_update_def device_written_def)
  have c: "(if st \<noteq> 0
        then check_recycle_time obj st (obj_update obj (\<lambda>sw. sw\<lparr>sw_hw_state := hw\<rparr>) s)
        else Some (True, obj_update obj (\<lambda>sw. sw\<lparr>sw_hw_state := hw\<rparr>) s)) =
      Some (True, obj_update obj (\<lambda>sw. sw\<lparr>sw_hw_state := hw\<rparr>) s)"
    using dev gate by (auto simp: check_recycle_time_def obj_update_def)
  have d: "switches (device_written obj sw st hw s) = switches s"
    by (simp add: device_written_def)
  show ?thesis
    unfolding process_switch_obj_def Let_def
    by (simp only: dev fl option.case prod.case c w d if_False not_True_eq_False simp_thms)
qed


subsection \<open>What the environment keeps, the dispatcher keeps\<close>

lemma invoke_keeps:
  assumes keeps: "env_keeps f env"
    and dep: "\<And>s s'. switches s' = switches s \<Longrightarrow>
                machine_switches s' = machine_switches s \<Longrightarrow> f s' = f s"
    and run: "invoke env cb s = Some s'"
  shows "f s' = f s"
proof (cases cb)
  case (User u)
  with keeps run show ?thesis
    by (auto simp: invoke_def env_keeps_def)
next
  case (Wait_handler fut i ms switch_name)
  with run have "switches s' = switches s" and "machine_switches s' = machine_switches s"
    by (auto simp: invoke_def wait_handler_def Let_def split: if_splits)
  then show ?thesis
    by (rule dep)
qed

lemma call_handlers_loop_keeps:
  assumes keeps: "env_keeps f env"
    and dep: "\<And>s s'. switches s' = switches s \<Longrightarrow>
                machine_switches s' = machine_switches s \<Longrightarrow> f s' = f s"
  shows "call_handlers_loop env name state entries s = Some s' \<Longrightarrow> f s' = f s"
proof (induction entries arbitrary: s)
  case Nil
  then show ?case by simp
next
  case (Cons entry rest)
  from Cons.prems obtain live where
    live: "ci_get (registered_switches s) (switch_key name state) = Some live"
    by (auto split: option.splits)
  show ?case
  proof (cases "entry \<in> set live")
    case False
    with Cons live show ?thesis by simp
  next
    case True
    show ?thesis
    proof (cases "rs_ms entry = 0")
      case True
      with Cons.prems live \<open>entry \<in> set live\<close> obtain s1 where
        s1: "invoke env (rs_callback entry) s = Some s1"
          "call_handlers_loop env name state rest s1 = Some s'"
        by (auto split: option.splits)
      have "f s1 = f s"
      proof (rule invoke_keeps [where f = f, OF keeps _ s1(1)])
        fix a b :: "('a, 'b) machine"
        assume "switches b = switches a" and "machine_switches b = machine_switches a"
        then show "f b = f a" by (rule dep)
      qed
      with Cons.IH [OF s1(2)] show ?thesis by simp
    next
      case False
      with Cons.prems live \<open>entry \<in> set live\<close> obtain s1 where
        s1: "add_timed_switch_handler (clock_time s + of_int (rs_ms entry) / 1000)
               (TimedSwitchHandler (rs_callback entry) name state (rs_ms entry)) s = Some s1"
          "call_handlers_loop env name state rest s1 = Some s'"
        by (auto split: option.splits)
      from s1(1) add_timed_switch_handler_result
        [of "clock_time s + of_int (rs_ms entry) / 1000"
          "TimedSwitchHandler (rs_callback entry) name state (rs_ms entry)" s]
      have "switches s1 = switches s" and "machine_switches s1 = machine_switches s"
        by auto
      then have "f s1 = f s"
        by (rule dep)
      with Cons.IH [OF s1(2)] show ?thesis by simp
    qed
  qed
qed

lemma call_handlers_keeps:
  assumes keeps: "env_keeps f env"
    and dep: "\<And>s s'. switches s' = switches s \<Longrightarrow>
                machine_switches s' = machine_switches s \<Longrightarrow> f s' = f s"
    and run: "call_handlers env name state s = Some s'"
  shows "f s' = f s"
  using run call_handlers_loop_keeps [OF keeps dep]
  by (auto simp: call_handlers_def split: option.splits)

lemma monitor_loop_keeps:
  "monitor_loop env obj state i s = Some s' \<Longrightarrow> env_keeps f env \<Longrightarrow> f s' = f s"
proof (induction env obj state i s s' rule: monitor_loop.raw_induct [rotated, consumes 1])
  case (1 loop env obj state i s s')
  note IH = 1(1) and body = 1(2) and keeps = 1(3)
  show ?case
  proof (cases "i < length (monitors s)")
    case False
    with body show ?thesis by simp
  next
    case True
    with body obtain sw where sw: "machine_switches s obj = Some sw"
      by (auto split: option.splits)
    with True body obtain s1 where
      s1: "run_monitor env (monitors s ! i)
             (MonitoredSwitchChange (sw_name sw) (sw_label sw) (sw_platform sw)
                (sw_number sw) state) s = Some s1"
        "loop env obj state (Suc i) s1 = Some s'"
      by (auto simp: bind_eq_Some_conv)
    from s1(1) keeps have "f s1 = f s"
      by (auto simp: env_keeps_def)
    with IH [OF s1(2) keeps] show ?thesis by simp
  qed
qed

subsection \<open>An accepted transition\<close>

lemma cancel_timed_handlers_fields [simp]:
  "switches (cancel_timed_handlers name state s) = switches s"
  "machine_switches (cancel_timed_handlers name state s) = machine_switches s"
  "clock_time (cancel_timed_handlers name state s) = clock_time s"
  by (simp_all add: cancel_timed_handlers_def)

lemma process_switch_obj_accepted_keeps:
  assumes dev: "machine_switches s obj = Some sw"
    and fl: "flip_states (sw_invert sw) logical state0 = (st, hw)"
    and gate: "st = 0 \<or> sw_recycle_clear_time sw \<le> clock_time s"
    and sto: "ci_get (switches s) (sw_name sw) = Some e"
    and change: "ss_state e \<noteq> st"
    and keeps: "env_keeps f env"
    and dep: "\<And>s s'. switches s' = switches s \<Longrightarrow>
                machine_switches s' = machine_switches s \<Longrightarrow> f s' = f s"
    and run: "process_switch_obj env obj state0 logical s = Some s'"
  shows "f s' = f (set_state (sw_name sw) st False (device_written obj sw st hw s))"
proof -
  from run obtain s6 n6 where
    s6: "call_handlers env (sw_name sw) st
           (set_state (sw_name sw) st False (device_written obj sw st hw s)) = Some s6"
    and loop: "monitor_loop env obj st 0 (cancel_timed_handlers n6 st s6) = Some s'"
    unfolding process_switch_obj_passed [OF dev fl gate]
    using sto change by (auto split: option.splits)
  have "f s' = f (cancel_timed_handlers n6 st s6)"
    using loop keeps by (rule monitor_loop_keeps)
  also have "\<dots> = f s6"
    by (rule dep) simp_all
  also have "\<dots> = f (set_state (sw_name sw) st False (device_written obj sw st hw s))"
  proof (rule call_handlers_keeps [where f = f, OF keeps _ s6])
    fix a b :: "('a, 'b) machine"
    assume "switches b = switches a" and "machine_switches b = machine_switches a"
    then show "f b = f a" by (rule dep)
  qed
  finally show ?thesis .
qed

text \<open>
  C1: \<open>process_switch\<close> for a configured switch, in an environment whose callbacks and
  monitors do not write the store entry of that switch. When the transition passes the
  recycle gate and the store records the other state, then after the call the store
  entry of the switch is the logical state that was dispatched together with the clock
  reading of the call, and \<open>ms_since_change\<close> at that clock reading is 0.
\<close>

theorem process_switch_accepted:
  assumes dev: "ci_get (machine_switches s) name = Some sw"
    and named: "lower (sw_name sw) = lower name"
    and fl: "flip_states (sw_invert sw) logical state0 = (st, hw)"
    and gate: "st = 0 \<or> sw_recycle_clear_time sw \<le> clock_time s"
    and sto: "ci_get (switches s) name = Some e"
    and change: "ss_state e \<noteq> st"
    and keeps: "env_keeps (\<lambda>s. ci_get (switches s) name) env"
    and run: "process_switch env name state0 logical s = Some s'"
  shows "ci_get (switches s') name = Some (SwitchState st (clock_time s)) \<and>
         ms_since_change name (s'\<lparr>clock_time := clock_time s\<rparr>) = Some 0"
proof -
  have dev': "machine_switches s (lower name) = Some sw"
    using dev by (simp add: ci_get_def)
  have sto': "ci_get (switches s) (sw_name sw) = Some e"
    using sto named by (simp add: ci_get_def)
  have run': "process_switch_obj env (lower name) state0 logical s = Some s'"
    using run by (simp add: process_switch_def split: if_splits)
  have "ci_get (switches s') name =
      ci_get (switches (set_state (sw_name sw) st False
        (device_written (lower name) sw st hw s))) name"
    by (rule process_switch_obj_accepted_keeps [OF dev' fl gate sto' change keeps _ run'])
      simp
  also have "\<dots> = Some (SwitchState st (clock_time s))"
    using named by (simp add: set_state_def device_written_def ci_get_def ci_set_def)
  finally have entry: "ci_get (switches s') name = Some (SwitchState st (clock_time s))" .
  then show ?thesis
    by (simp add: ms_since_change_def)
qed

lemma machine_tilt_run:
  "process_switch quiet_env ''tilt'' 0 False machine_tilt =
     Some ((set_state ''tilt'' 1 False machine_tilt)
       \<lparr>machine_switches :=
          [''tilt'' \<mapsto> (new_switch ''tilt'' 2 True 0)\<lparr>sw_state := 1, sw_hw_state := 0\<rparr>]\<rparr>)"
  by (simp add: machine_tilt_def quiet_env_def store_defs string_defs build_defs
      handler_defs dispatch_defs Let_def)

theorem process_switch_accepted_witness:
  "ci_get (machine_switches machine_tilt) ''tilt'' = Some (new_switch ''tilt'' 2 True 0) \<and>
   flip_states (sw_invert (new_switch ''tilt'' 2 True 0)) False 0 = (1, 0) \<and>
   sw_recycle_clear_time (new_switch ''tilt'' 2 True 0) \<le> clock_time machine_tilt \<and>
   ci_get (switches machine_tilt) ''tilt'' = Some (SwitchState 0 (- 100000)) \<and>
   env_keeps (\<lambda>s. ci_get (switches s) ''tilt'') quiet_env \<and>
   (\<exists>s'. process_switch quiet_env ''tilt'' 0 False machine_tilt = Some s' \<and>
         ci_get (switches s') ''tilt'' = Some (SwitchState 1 0) \<and>
         ms_since_change ''tilt'' s' = Some 0)"
proof -
  let ?sw = "new_switch ''tilt'' 2 True 0"
  have h1: "ci_get (machine_switches machine_tilt) ''tilt'' = Some ?sw"
    by (simp add: machine_tilt_def store_defs string_defs build_defs)
  have h2: "lower (sw_name ?sw) = lower ''tilt''"
    by (simp add: new_switch_def)
  have h3: "flip_states (sw_invert ?sw) False 0 = (1, 0)"
    by (simp add: new_switch_def flip_states_def)
  have h4: "(1::int) = 0 \<or> sw_recycle_clear_time ?sw \<le> clock_time machine_tilt"
    by (simp add: machine_tilt_def store_defs build_defs)
  have h5: "ci_get (switches machine_tilt) ''tilt'' = Some (SwitchState 0 (- 100000))"
    by (simp add: machine_tilt_def store_defs string_defs build_defs)
  have h6: "ss_state (SwitchState 0 (- 100000)) \<noteq> 1"
    by simp
  have h7: "env_keeps (\<lambda>s. ci_get (switches s) ''tilt'') quiet_env"
    by (simp add: env_keeps_def quiet_env_def)
  obtain s' where run: "process_switch quiet_env ''tilt'' 0 False machine_tilt = Some s'"
    and clock: "clock_time s' = 0"
    using machine_tilt_run by (simp add: machine_tilt_def store_defs build_defs)
  have c: "clock_time machine_tilt = 0"
    by (simp add: machine_tilt_def store_defs build_defs)
  have "s'\<lparr>clock_time := clock_time machine_tilt\<rparr> = s'"
    using clock c by simp
  with process_switch_accepted [OF h1 h2 h3 h4 h5 h6 h7 run] run h1 h3 h4 h5 h7 c
  show ?thesis by simp
qed

subsection \<open>Normally-closed switches\<close>

lemma flip_states_raw:
  assumes "state0 = 0 \<or> state0 = 1"
  shows "flip_states invert logical state0 =
           (if invert \<and> \<not> logical then state0 XOR 1 else state0,
            if invert \<and> logical then state0 XOR 1 else state0)"
  using assms by (auto simp: flip_states_def)

lemma process_switch_obj_rejected:
  assumes dev: "machine_switches s obj = Some sw"
    and fl: "flip_states (sw_invert sw) logical state0 = (st, hw)"
    and gate: "st \<noteq> 0" "clock_time s < sw_recycle_clear_time sw"
    and run: "process_switch_obj env obj state0 logical s = Some s'"
  shows "machine_switches s' obj =
           Some (sw\<lparr>sw_hw_state := hw,
                   sw_recycle_jitter_count := sw_recycle_jitter_count sw + 1\<rparr>)"
  using assms
  by (auto simp: process_switch_obj_def check_recycle_time_def obj_update_def
      schedule_once_def Let_def)

text \<open>
  C3: \<open>process_switch_obj\<close> with a raw input of 0 or 1, in an environment whose callbacks
  and monitors write neither the device nor the store entry of the switch. After the
  call the device's \<open>hw_state\<close> is the physical level: the input, or its opposite when
  the switch is inverted and the input is logical. This holds on every path. The
  logical state is the input, or its opposite when the switch is inverted and the input
  is physical; unless the recycle gate rejects the call, it is the device's \<open>state\<close> and
  the state of the store entry after the call.
\<close>

theorem process_switch_obj_inversion:
  assumes dev: "machine_switches s obj = Some sw"
    and raw: "state0 = 0 \<or> state0 = 1"
    and keeps: "env_keeps (\<lambda>s. (ci_get (switches s) (sw_name sw), machine_switches s obj)) env"
    and run: "process_switch_obj env obj state0 logical s = Some s'"
  shows "\<exists>sw'. machine_switches s' obj = Some sw' \<and>
           sw_hw_state sw' = (if sw_invert sw \<and> logical then state0 XOR 1 else state0) \<and>
           ((if sw_invert sw \<and> \<not> logical then state0 XOR 1 else state0) = 0 \<or>
            sw_recycle_clear_time sw \<le> clock_time s \<longrightarrow>
              sw_state sw' = (if sw_invert sw \<and> \<not> logical then state0 XOR 1 else state0) \<and>
              map_option ss_state (ci_get (switches s') (sw_name sw)) =
                Some (if sw_invert sw \<and> \<not> logical then state0 XOR 1 else state0))"
proof -
  define st where "st = (if sw_invert sw \<and> \<not> logical then state0 XOR 1 else state0)"
  define hw where "hw = (if sw_invert sw \<and> logical then state0 XOR 1 else state0)"
  have fl: "flip_states (sw_invert sw) logical state0 = (st, hw)"
    unfolding st_def hw_def using raw by (rule flip_states_raw)
  show ?thesis
  proof (cases "st = 0 \<or> sw_recycle_clear_time sw \<le> clock_time s")
    case False
    then have "st \<noteq> 0" and "clock_time s < sw_recycle_clear_time sw"
      by auto
    from process_switch_obj_rejected [OF dev fl this run] False show ?thesis
      by (simp add: st_def hw_def)
  next
    case gate: True
    from run obtain e where sto: "ci_get (switches s) (sw_name sw) = Some e"
      unfolding process_switch_obj_passed [OF dev fl gate]
      by (auto split: option.splits)
    have written: "machine_switches (device_written obj sw st hw s) obj =
        Some (sw\<lparr>sw_hw_state := hw, sw_state := st,
                sw_recycle_clear_time :=
                  (if st = 0 then sw_recycle_clear_time sw
                   else clock_time s + sw_recycle_secs sw)\<rparr>)"
      by (simp add: device_written_def)
    show ?thesis
    proof (cases "ss_state e = st")
      case True
      with run sto have "s' = device_written obj sw st hw s"
        unfolding process_switch_obj_passed [OF dev fl gate] by simp
      with written sto True gate show ?thesis
        by (simp add: st_def [symmetric] hw_def [symmetric] device_written_def)
    next
      case False
      have "(ci_get (switches s') (sw_name sw), machine_switches s' obj) =
          (ci_get (switches (set_state (sw_name sw) st False
             (device_written obj sw st hw s))) (sw_name sw),
           machine_switches (set_state (sw_name sw) st False
             (device_written obj sw st hw s)) obj)"
        by (rule process_switch_obj_accepted_keeps [OF dev fl gate sto False keeps _ run])
          simp
      with written gate show ?thesis
        by (simp add: st_def [symmetric] hw_def [symmetric] set_state_def ci_get_def
            ci_set_def)
    qed
  qed
qed

theorem process_switch_obj_inversion_witness:
  "machine_switches machine_tilt ''tilt'' = Some (new_switch ''tilt'' 2 True 0) \<and>
   env_keeps (\<lambda>s. (ci_get (switches s) (sw_name (new_switch ''tilt'' 2 True 0)),
                  machine_switches s ''tilt'')) quiet_env \<and>
   (\<exists>s' sw'. process_switch_obj quiet_env ''tilt'' 0 False machine_tilt = Some s' \<and>
         machine_switches s' ''tilt'' = Some sw' \<and>
         sw_hw_state sw' = 0 \<and> sw_state sw' = 1 \<and>
         map_option ss_state (ci_get (switches s') ''tilt'') = Some 1)"
proof -
  let ?sw = "new_switch ''tilt'' 2 True 0"
  have h1: "machine_switches machine_tilt ''tilt'' = Some ?sw"
    by (simp add: machine_tilt_def store_defs string_defs build_defs)
  have h2: "(0::int) = 0 \<or> (0::int) = 1"
    by simp
  have h3: "env_keeps (\<lambda>s. (ci_get (switches s) (sw_name ?sw), machine_switches s ''tilt''))
      quiet_env"
    by (simp add: env_keeps_def quiet_env_def)
  obtain s' where run: "process_switch_obj quiet_env ''tilt'' 0 False machine_tilt = Some s'"
    using machine_tilt_run by (simp add: process_switch_def string_defs split: if_splits)
  have f: "sw_invert ?sw" "sw_name ?sw = ''tilt''" "sw_recycle_clear_time ?sw = 0"
    "clock_time machine_tilt = 0"
    by (simp_all add: new_switch_def machine_tilt_def store_defs build_defs)
  from process_switch_obj_inversion [OF h1 h2 h3 run] run h1 h3
  show ?thesis by (simp add: f)
qed

end
